theory Spec2Isabelle
  imports Complex_Main
begin

section \<open>The streaming loop of crypto\_pump\_bot.py\<close>

text \<open>
  The program is one Python file. Its logic is the retry loop of
  \<^verbatim>\<open>RobustCryptoBot.websocket_listener\<close>, the shutdown procedure, the check of the
  environment at import and the guarded main block. Everything the code awaits from the
  outside (the outcome of a connect, of a receive, of a library call) is an input of the
  model; everything it does to the outside (connect, close, sleep, log, cancel) is an
  action of the trace it returns.
\<close>

subsection \<open>Exceptions\<close>

text \<open>
  The exceptions the file raises or handles. From Python 3.8 on \<^verbatim>\<open>CancelledError\<close> derives
  from \<^verbatim>\<open>BaseException\<close> only, so \<^verbatim>\<open>except Exception\<close> lets it through; all the others
  derive from \<^verbatim>\<open>Exception\<close>.
\<close>

datatype exn =
    TimeoutError
  | ConnectionClosed
  | OSError
  | InvalidHandshake
  | JSONDecodeError
  | AttributeError
  | ValueError string
  | RuntimeError
  | InvalidToken
  | CancelledError

fun is_Exception :: "exn \<Rightarrow> bool" where
  "is_Exception CancelledError = False"
| "is_Exception _ = True"

subsection \<open>The bot object\<close>

record bot =
  ws_uri :: string
  retries :: nat
  max_retries :: nat

text \<open>The fields \<^verbatim>\<open>__init__\<close> sets that the loop reads (lines 55 to 57).\<close>

definition new_bot :: bot where
  "new_bot = \<lparr>ws_uri = ''wss://stream.binance.com:9443/ws/!ticker@arr'', retries = 0, max_retries = 10\<rparr>"

text \<open>
  The names an instance of \<^verbatim>\<open>RobustCryptoBot\<close> answers to: the attributes \<^verbatim>\<open>__init__\<close>
  assigns and the methods of the class body. Python looks an attribute up in these and
  raises \<^verbatim>\<open>AttributeError\<close> for any other name.
\<close>

definition instance_attrs :: "string list" where
  "instance_attrs = [''exchange'', ''symbol_data'', ''alert_cooldown'', ''app'', ''ws_uri'',
     ''retries'', ''max_retries'']"

definition class_attrs :: "string list" where
  "class_attrs = [''__init__'', ''_init_exchange'', ''_init_telegram'', ''start'',
     ''system_monitor'', ''websocket_listener'', ''shutdown'']"

definition has_attr :: "string \<Rightarrow> bool" where
  "has_attr name = (name \<in> set instance_attrs \<or> name \<in> set class_attrs)"

subsection \<open>What the outside world does\<close>

text \<open>
  A received text frame, by what \<^verbatim>\<open>json.loads\<close> does with it.
\<close>

datatype frame = Decodable | Malformed

fun json_loads :: "frame \<Rightarrow> exn option" where
  "json_loads Decodable = None"
| "json_loads Malformed = Some JSONDecodeError"

text \<open>
  One \<^verbatim>\<open>await asyncio.wait_for(ws.recv(), timeout=45)\<close> either returns a frame or raises;
  one \<^verbatim>\<open>websockets.connect\<close> either raises or opens a connection, on which the listed
  receives then happen in order.
\<close>

datatype recv_event = Data frame | RecvRaises exn

datatype conn_event = ConnectRaises exn | ConnectOk "recv_event list"

subsection \<open>Actions\<close>

datatype action =
    Connect
  | LogConnected
  | Recv
  | LogTimeout
  | Close
  | LogFailed nat exn
  | Sleep nat
  | LogMaxRetries
  | LogShutdown
  | Cancel nat
  | AwaitTasks
  | AppStop
  | AppShutdown
  | LogShutdownComplete
  | LogCritical exn
  | Traceback exn
  | LogStart

subsection \<open>The receive loop (lines 103 to 109)\<close>

text \<open>
  \<^verbatim>\<open>await self.process_data(json.loads(data))\<close>: Python evaluates the callee
  \<^verbatim>\<open>self.process_data\<close> before the argument, so a missing attribute raises before the frame
  is decoded. Only a class that had the attribute would go on to decode the frame.
\<close>

definition handle_frame :: "frame \<Rightarrow> exn option" where
  "handle_frame f = (if has_attr ''process_data'' then json_loads f else Some AttributeError)"

text \<open>The body of the inner \<^verbatim>\<open>try\<close>: the exception it raises, if any.\<close>

fun try_body :: "recv_event \<Rightarrow> exn option" where
  "try_body (RecvRaises e) = Some e"
| "try_body (Data f) = handle_frame f"

datatype inner_end = Broke | Raised exn | Waiting

text \<open>
  \<^verbatim>\<open>while True\<close>: the handler catches \<^verbatim>\<open>asyncio.TimeoutError\<close> and
  \<^verbatim>\<open>websockets.ConnectionClosed\<close>, logs a warning and breaks; any other exception leaves
  the loop. \<open>Waiting\<close> is the loop suspended in a receive the script does not answer.
\<close>

fun recv_loop :: "recv_event list \<Rightarrow> inner_end \<times> action list" where
  "recv_loop [] = (Waiting, [Recv])"
| "recv_loop (ev # evs) =
     (case try_body ev of
        None \<Rightarrow> (case recv_loop evs of (r, tr) \<Rightarrow> (r, Recv # tr))
      | Some e \<Rightarrow>
          if e = TimeoutError \<or> e = ConnectionClosed then (Broke, [Recv, LogTimeout])
          else (Raised e, [Recv]))"

subsection \<open>One pass of the retry loop (lines 99 to 114)\<close>

definition backoff :: "nat \<Rightarrow> nat" where
  "backoff r = min (2 ^ r) 300"

datatype step_end = Next | Escapes exn | Suspended

text \<open>
  The outer handler, \<^verbatim>\<open>except Exception\<close>: increment, compute the wait from the new
  counter, log, sleep. An exception that is not an \<^verbatim>\<open>Exception\<close> leaves the method.
\<close>

definition on_exception :: "bot \<Rightarrow> exn \<Rightarrow> action list \<Rightarrow> step_end \<times> bot \<times> action list" where
  "on_exception b e tr =
     (if is_Exception e then
        (let b' = b\<lparr>retries := retries b + 1\<rparr>;
             wait = backoff (retries b')
         in (Next, b', tr @ [LogFailed (retries b') e, Sleep wait]))
      else (Escapes e, b, tr))"

text \<open>
  The \<^verbatim>\<open>try\<close> block: connect; on success log, reset the counter and run the receive loop.
  Leaving the \<^verbatim>\<open>async with\<close> block, by \<^verbatim>\<open>break\<close> or by an exception, closes the
  connection.
\<close>

fun attempt :: "bot \<Rightarrow> conn_event \<Rightarrow> step_end \<times> bot \<times> action list" where
  "attempt b (ConnectRaises e) = on_exception b e [Connect]"
| "attempt b (ConnectOk evs) =
     (let b0 = b\<lparr>retries := 0\<rparr> in
      case recv_loop evs of
        (Broke, tr) \<Rightarrow> (Next, b0, [Connect, LogConnected] @ tr @ [Close])
      | (Raised e, tr) \<Rightarrow> on_exception b0 e ([Connect, LogConnected] @ tr @ [Close])
      | (Waiting, tr) \<Rightarrow> (Suspended, b0, [Connect, LogConnected] @ tr))"

subsection \<open>The retry loop (line 98)\<close>

datatype loop_end = Exhausted | Escaped exn | Starved

text \<open>
  \<^verbatim>\<open>while self.retries < self.max_retries\<close>. The script is the sequence of connection
  outcomes; when it ends while the loop goes on, the loop is left suspended in its next
  connect (\<open>Starved\<close>).
\<close>

fun retry_loop :: "bot \<Rightarrow> conn_event list \<Rightarrow> loop_end \<times> bot \<times> action list" where
  "retry_loop b [] =
     (if retries b < max_retries b then (Starved, b, [Connect]) else (Exhausted, b, []))"
| "retry_loop b (c # cs) =
     (if retries b < max_retries b then
        (case attempt b c of
           (Next, b', tr) \<Rightarrow> (case retry_loop b' cs of (r, b'', tr') \<Rightarrow> (r, b'', tr @ tr'))
         | (Escapes e, b', tr) \<Rightarrow> (Escaped e, b', tr)
         | (Suspended, b', tr) \<Rightarrow> (Starved, b', tr))
      else (Exhausted, b, []))"

subsection \<open>Reading a trace\<close>

fun waits :: "action list \<Rightarrow> nat list" where
  "waits [] = []"
| "waits (Sleep w # tr) = w # waits tr"
| "waits (_ # tr) = waits tr"

fun counters :: "action list \<Rightarrow> nat list" where
  "counters [] = []"
| "counters (LogFailed k e # tr) = k # counters tr"
| "counters (_ # tr) = counters tr"

fun connects :: "action list \<Rightarrow> nat" where
  "connects [] = 0"
| "connects (Connect # tr) = Suc (connects tr)"
| "connects (_ # tr) = connects tr"

text \<open>The trace of a streak of failed connects that starts with the counter at \<open>r\<close>.\<close>

fun streak :: "nat \<Rightarrow> exn list \<Rightarrow> action list" where
  "streak r [] = []"
| "streak r (e # es) = [Connect, LogFailed (Suc r) e, Sleep (backoff (Suc r))] @ streak (Suc r) es"

text \<open>
  A connection whose first receive times out or finds the connection closed: the one way
  the receive loop is left by \<^verbatim>\<open>break\<close>.
\<close>

fun ends_idle :: "conn_event \<Rightarrow> bool" where
  "ends_idle (ConnectOk (RecvRaises e # evs)) = (e = TimeoutError \<or> e = ConnectionClosed)"
| "ends_idle _ = False"

subsection \<open>Tasks\<close>

text \<open>
  A task of the event loop, by what it does once it is cancelled: it ends cancelled, it
  ends returning a result, it ends raising, or it never ends (it swallows the cancellation
  and keeps running). \<open>tid\<close> stands for the identity \<^verbatim>\<open>is not\<close> compares. \<open>awaits\<close>
  lists the tasks it has gathered and is waiting for: asyncio passes the cancellation of a
  task that waits in \<^verbatim>\<open>gather\<close> on to the gathered tasks.
\<close>

datatype task_end = EndsCancelled | EndsReturning | EndsRaising exn | NeverEnds

record task =
  tid :: nat
  on_cancel :: task_end
  awaits :: "nat list"

text \<open>
  The tasks the program itself creates (lines 79 to 85, 137): the task of \<^verbatim>\<open>start\<close>, which
  gathers five children and waits for them, and the first child, the listener. Neither
  catches \<^verbatim>\<open>CancelledError\<close>: their handlers are \<^verbatim>\<open>except Exception\<close>. The other
  children (\<^verbatim>\<open>app.initialize\<close>, \<^verbatim>\<open>app.start\<close>, \<^verbatim>\<open>start_polling\<close>, \<^verbatim>\<open>system_monitor\<close>) are
  the tasks 2 to 5; which of them and of the library's own tasks are still pending is an
  input.
\<close>

definition start_task :: task where
  "start_task = \<lparr>tid = 0, on_cancel = EndsCancelled, awaits = [1, 2, 3, 4, 5]\<rparr>"

definition listener_task :: task where
  "listener_task = \<lparr>tid = 1, on_cancel = EndsCancelled, awaits = []\<rparr>"

subsection \<open>Shutdown (lines 119 to 127)\<close>

text \<open>
  \<^verbatim>\<open>await asyncio.gather(*tasks, return_exceptions=True)\<close> completes once every task has
  ended, and hands the exception of a task back as a value of the result list instead of
  raising it. The await has no timeout around it: \<open>None\<close> is the await that never
  completes.
\<close>

definition gather_all :: "task list \<Rightarrow> task_end list option" where
  "gather_all ts =
     (if NeverEnds \<in> set (map on_cancel ts) then None else Some (map on_cancel ts))"

text \<open>
  Cancelling a task that waits for the caller in a \<^verbatim>\<open>gather\<close> cancels the caller too. The
  caller is running, so the request is held until its next await, the one of line 124,
  which raises \<^verbatim>\<open>CancelledError\<close> in the caller once the awaited tasks have ended.
\<close>

definition cancels_caller :: "nat \<Rightarrow> task list \<Rightarrow> bool" where
  "cancels_caller cur tasks = (cur \<in> set (concat (map awaits tasks)))"

datatype shutdown_end = Completed | Hangs | ShutdownRaises exn

text \<open>
  \<open>all_tasks\<close> is what \<^verbatim>\<open>asyncio.all_tasks()\<close> returns, the tasks that are not done yet,
  and \<open>cur\<close> the task that runs \<^verbatim>\<open>shutdown\<close>. \<open>stop\<close> and \<open>shut\<close> are the exceptions
  \<^verbatim>\<open>await self.app.stop()\<close> and \<^verbatim>\<open>await self.app.shutdown()\<close> raise, if any: what the
  Telegram library does in them is not part of this file. Nothing in the procedure catches
  an exception, so the first one raised ends it.
\<close>

definition shutdown ::
  "nat \<Rightarrow> task list \<Rightarrow> exn option \<Rightarrow> exn option \<Rightarrow> shutdown_end \<times> action list" where
  "shutdown cur all_tasks stop shut =
     (let tasks = filter (\<lambda>t. tid t \<noteq> cur) all_tasks;
          tr = LogShutdown # map (\<lambda>t. Cancel (tid t)) tasks @ [AwaitTasks]
      in case gather_all tasks of
           None \<Rightarrow> (Hangs, tr)
         | Some results \<Rightarrow>
             if cancels_caller cur tasks then (ShutdownRaises CancelledError, tr)
             else
               (case stop of
                  Some e \<Rightarrow> (ShutdownRaises e, tr @ [AppStop])
                | None \<Rightarrow>
                    (case shut of
                       Some e \<Rightarrow> (ShutdownRaises e, tr @ [AppStop, AppShutdown])
                     | None \<Rightarrow>
                         (Completed, tr @ [AppStop, AppShutdown, LogShutdownComplete]))))"

fun cancelled :: "action list \<Rightarrow> nat list" where
  "cancelled [] = []"
| "cancelled (Cancel i # tr) = i # cancelled tr"
| "cancelled (_ # tr) = cancelled tr"

subsection \<open>The whole listener (lines 96 to 117)\<close>

datatype listener_end = Returned | Blocked | Raises exn | Pending

text \<open>
  The listener runs as the first child of the gather of \<^verbatim>\<open>start\<close>. When its loop is left
  the task of \<^verbatim>\<open>start\<close> and the listener itself are pending, together with \<open>others\<close>.
\<close>

definition websocket_listener ::
  "bot \<Rightarrow> task list \<Rightarrow> exn option \<Rightarrow> exn option \<Rightarrow> conn_event list \<Rightarrow>
   listener_end \<times> bot \<times> action list" where
  "websocket_listener b others stop shut cs =
     (case retry_loop b cs of
        (Exhausted, b', tr) \<Rightarrow>
          (case shutdown (tid listener_task) (start_task # listener_task # others) stop shut of
             (Completed, tr') \<Rightarrow> (Returned, b', tr @ LogMaxRetries # tr')
           | (Hangs, tr') \<Rightarrow> (Blocked, b', tr @ LogMaxRetries # tr')
           | (ShutdownRaises e, tr') \<Rightarrow> (Raises e, b', tr @ LogMaxRetries # tr'))
      | (Escaped e, b', tr) \<Rightarrow> (Raises e, b', tr)
      | (Starved, b', tr) \<Rightarrow> (Pending, b', tr))"

subsection \<open>The entry point (lines 75 to 88)\<close>

datatype run_end = RunReturns | RunRaises exn | RunPending

text \<open>
  The handler of \<^verbatim>\<open>start\<close>, entered when the await of the gather raises \<open>e\<close> in it:
  \<^verbatim>\<open>except Exception\<close> logs and runs the shutdown procedure in the task of \<^verbatim>\<open>start\<close>;
  what is not an \<^verbatim>\<open>Exception\<close> leaves \<^verbatim>\<open>start\<close>.
\<close>

definition start_handler ::
  "exn \<Rightarrow> task list \<Rightarrow> exn option \<Rightarrow> exn option \<Rightarrow> action list \<Rightarrow> run_end \<times> action list" where
  "start_handler e pending stop shut tr =
     (if is_Exception e then
        (case shutdown (tid start_task) pending stop shut of
           (Completed, tr') \<Rightarrow> (RunReturns, tr @ LogCritical e # tr')
         | (Hangs, tr') \<Rightarrow> (RunPending, tr @ LogCritical e # tr')
         | (ShutdownRaises e', tr') \<Rightarrow> (RunRaises e', tr @ LogCritical e # tr'))
      else (RunRaises e, tr))"

text \<open>
  \<^verbatim>\<open>start\<close> waits in \<^verbatim>\<open>gather\<close> (without \<^verbatim>\<open>return_exceptions\<close>) for its five children; the
  monitor never returns, so the await ends only by an exception. \<open>child_fails\<close> is the
  exception one of the other four children raises while the listener is still in its
  loop, if any. Otherwise the listener decides: when its shutdown has cancelled the task
  of \<^verbatim>\<open>start\<close>, the await raises \<^verbatim>\<open>CancelledError\<close> there; when the listener raises, the
  gather raises the same in \<^verbatim>\<open>start\<close>; else \<^verbatim>\<open>start\<close> goes on waiting.
\<close>

definition start ::
  "bot \<Rightarrow> exn option \<Rightarrow> task list \<Rightarrow> exn option \<Rightarrow> exn option \<Rightarrow> conn_event list \<Rightarrow>
   run_end \<times> action list" where
  "start b child_fails others stop shut cs =
     (case child_fails of
        Some e \<Rightarrow> start_handler e (start_task # listener_task # others) stop shut [LogStart]
      | None \<Rightarrow>
          (case websocket_listener b others stop shut cs of
             (r, b', tr) \<Rightarrow>
               if tid start_task \<in> set (cancelled tr)
               then (RunRaises CancelledError, LogStart # tr)
               else
                 (case r of
                    Raises e \<Rightarrow> start_handler e (start_task # others) stop shut (LogStart # tr)
                  | _ \<Rightarrow> (RunPending, LogStart # tr))))"

subsection \<open>The environment check at import (lines 33 to 47)\<close>

type_synonym environ = "string \<Rightarrow> string option"

definition getenv :: "environ \<Rightarrow> string \<Rightarrow> string option" where
  "getenv env var = env var"

definition getenv_default :: "environ \<Rightarrow> string \<Rightarrow> string \<Rightarrow> string" where
  "getenv_default env var dflt = (case env var of None \<Rightarrow> dflt | Some v \<Rightarrow> v)"

text \<open>\<^verbatim>\<open>not value\<close>: true of \<^verbatim>\<open>None\<close> and of the empty string.\<close>

definition falsy :: "string option \<Rightarrow> bool" where
  "falsy v = (case v of None \<Rightarrow> True | Some s \<Rightarrow> s = [])"

definition REQUIRED_ENV :: "string list" where
  "REQUIRED_ENV = [''TELEGRAM_TOKEN'', ''CHAT_ID'']"

text \<open>The loop over \<^verbatim>\<open>REQUIRED_ENV\<close>: the first variable that is missing raises.\<close>

fun check_required :: "environ \<Rightarrow> string list \<Rightarrow> exn option" where
  "check_required env [] = None"
| "check_required env (var # vars) =
     (if falsy (getenv env var)
      then Some (ValueError (''Missing required environment variable: '' @ var))
      else check_required env vars)"

record config =
  TELEGRAM_TOKEN :: "string option"
  CHAT_ID :: "string option"
  BOT_NAME :: string
  ALERT_THRESHOLDS :: "(string \<times> real) list"

definition load_module :: "environ \<Rightarrow> exn + config" where
  "load_module env =
     (case check_required env REQUIRED_ENV of
        Some e \<Rightarrow> Inl e
      | None \<Rightarrow>
          Inr \<lparr>TELEGRAM_TOKEN = getenv env ''TELEGRAM_TOKEN'',
               CHAT_ID = getenv env ''CHAT_ID'',
               BOT_NAME = getenv_default env ''BOT_NAME'' ''GitHub Codespaces Bot'',
               ALERT_THRESHOLDS = [(''5m'', 5), (''15m'', 10), (''1h'', 50)]\<rparr>)"

subsection \<open>The constructor and the main block (lines 50 to 73, 134 to 139)\<close>

text \<open>
  \<open>build\<close> is the exception \<^verbatim>\<open>ApplicationBuilder().token(...).build()\<close> raises, if any,
  and \<open>exchange\<close> the one \<^verbatim>\<open>ccxt.binance(...)\<close> raises, if any.
\<close>

definition init_telegram :: "config \<Rightarrow> exn option \<Rightarrow> exn option" where
  "init_telegram cfg build =
     (if falsy (TELEGRAM_TOKEN cfg) \<or> falsy (CHAT_ID cfg)
      then Some (ValueError ''Telegram credentials missing'')
      else build)"

definition construct :: "config \<Rightarrow> exn option \<Rightarrow> exn option \<Rightarrow> exn + bot" where
  "construct cfg exchange build =
     (case exchange of
        Some e \<Rightarrow> Inl e
      | None \<Rightarrow> (case init_telegram cfg build of Some e \<Rightarrow> Inl e | None \<Rightarrow> Inr new_bot))"

text \<open>
  \<^verbatim>\<open>except Exception\<close> of the main block: the exception is logged and the script ends, so
  the interpreter exits with status 0. An exception nothing catches ends the interpreter
  with a traceback and status 1.
\<close>

definition guarded :: "exn \<Rightarrow> nat \<times> action list" where
  "guarded e = (if is_Exception e then (0, [LogCritical e]) else (1, [Traceback e]))"

text \<open>
  The script from import to exit: the exit status and what is logged. \<open>run\<close> is the
  exception \<^verbatim>\<open>asyncio.run(bot.start())\<close> raises, if any.
\<close>

definition program ::
  "environ \<Rightarrow> exn option \<Rightarrow> exn option \<Rightarrow> exn option \<Rightarrow> nat \<times> action list" where
  "program env exchange build run =
     (case load_module env of
        Inl e \<Rightarrow> (1, [Traceback e])
      | Inr cfg \<Rightarrow>
          (case construct cfg exchange build of
             Inl e \<Rightarrow> guarded e
           | Inr b \<Rightarrow> (case run of Some e \<Rightarrow> guarded e | None \<Rightarrow> (0, []))))"

text \<open>
  The same with the outcome of \<^verbatim>\<open>asyncio.run(bot.start())\<close> computed by \<open>start\<close>, which
  re-raises what \<^verbatim>\<open>start\<close> raises. \<open>None\<close> is the process that does not exit.
\<close>

definition process ::
  "environ \<Rightarrow> exn option \<Rightarrow> exn option \<Rightarrow> exn option \<Rightarrow> task list \<Rightarrow> exn option \<Rightarrow> exn option \<Rightarrow>
   conn_event list \<Rightarrow> (nat \<times> action list) option" where
  "process env exchange build child_fails others stop shut cs =
     (case load_module env of
        Inl e \<Rightarrow> Some (program env exchange build None)
      | Inr cfg \<Rightarrow>
          (case construct cfg exchange build of
             Inl e \<Rightarrow> Some (program env exchange build None)
           | Inr b \<Rightarrow>
               (case fst (start b child_fails others stop shut cs) of
                  RunReturns \<Rightarrow> Some (program env exchange build None)
                | RunRaises e \<Rightarrow> Some (program env exchange build (Some e))
                | RunPending \<Rightarrow> None)))"

section \<open>Properties of the retry loop\<close>

subsection \<open>Traces\<close>

lemma waits_append: "waits (xs @ ys) = waits xs @ waits ys"
  by (induction xs rule: waits.induct) auto

lemma counters_append: "counters (xs @ ys) = counters xs @ counters ys"
  by (induction xs rule: counters.induct) auto

lemma connects_append: "connects (xs @ ys) = connects xs + connects ys"
  by (induction xs rule: connects.induct) auto

lemma upt_Suc_shift: "[Suc r..<Suc (r + Suc n)] = Suc r # [Suc (Suc r)..<Suc (Suc r + n)]"
  by (subst upt_rec) simp

lemma waits_streak: "waits (streak r es) = map backoff [Suc r..<Suc (r + length es)]"
proof (induction es arbitrary: r)
  case Nil
  then show ?case by simp
next
  case (Cons e es)
  then show ?case using upt_Suc_shift [of r "length es"] by simp
qed

lemma counters_streak: "counters (streak r es) = [Suc r..<Suc (r + length es)]"
proof (induction es arbitrary: r)
  case Nil
  then show ?case by simp
next
  case (Cons e es)
  then show ?case using upt_Suc_shift [of r "length es"] by simp
qed

lemma connects_streak: "connects (streak r es) = length es"
  by (induction es arbitrary: r) auto

lemma streak_concat:
  "streak r es = concat (map2 (\<lambda>k e. [Connect, LogFailed k e, Sleep (min (2 ^ k) 300)])
                     [Suc r..<Suc (r + length es)] es)"
proof (induction es arbitrary: r)
  case Nil
  then show ?case by simp
next
  case (Cons e es)
  then show ?case using upt_Suc_shift [of r "length es"] by (simp add: backoff_def)
qed

subsection \<open>The wait\<close>

lemma backoff_mono: "r \<le> s \<Longrightarrow> backoff r \<le> backoff s"
  by (simp add: backoff_def min_le_iff_disj power_increasing)

lemma backoff_le_cap: "backoff r \<le> 300"
  by (simp add: backoff_def)

lemma sorted_map_backoff: "sorted (map backoff [i..<j])"
  by (simp add: sorted_map sorted_wrt_iff_nth_less backoff_mono)

subsection \<open>Frames\<close>

lemma has_no_process_data: "\<not> has_attr ''process_data''"
  by (simp add: has_attr_def instance_attrs_def class_attrs_def)

lemma handle_frame_raises: "handle_frame f = Some AttributeError"
  by (simp add: handle_frame_def has_no_process_data)

subsection \<open>A streak of failed connects\<close>

lemma attempt_ConnectRaises:
  "is_Exception e \<Longrightarrow> attempt b (ConnectRaises e) =
     (Next, b\<lparr>retries := Suc (retries b)\<rparr>,
      [Connect, LogFailed (Suc (retries b)) e, Sleep (backoff (Suc (retries b)))])"
  by (simp add: on_exception_def)

lemma retry_loop_streak:
  "\<forall>e\<in>set es. is_Exception e \<Longrightarrow> retries b + length es \<le> max_retries b \<Longrightarrow>
   retry_loop b (map ConnectRaises es @ cs) =
     (case retry_loop (b\<lparr>retries := retries b + length es\<rparr>) cs of
        (r, b', tr) \<Rightarrow> (r, b', streak (retries b) es @ tr))"
proof (induction es arbitrary: b)
  case Nil
  then show ?case by (simp split: prod.splits)
next
  case (Cons e es)
  let ?b = "b\<lparr>retries := Suc (retries b)\<rparr>"
  from Cons.prems have e: "is_Exception e" and lt: "retries b < max_retries b" by auto
  have IH: "retry_loop ?b (map ConnectRaises es @ cs) =
     (case retry_loop (?b\<lparr>retries := retries ?b + length es\<rparr>) cs of
        (r, b', tr) \<Rightarrow> (r, b', streak (retries ?b) es @ tr))"
    using Cons.prems by (intro Cons.IH) auto
  show ?case
    using lt by (simp add: attempt_ConnectRaises [OF e] IH del: attempt.simps split: prod.splits)
qed

lemma retry_loop_streak_end:
  assumes "\<forall>e\<in>set es. is_Exception e" and "retries b + length es < max_retries b"
  shows "retry_loop b (map ConnectRaises es) =
           (Starved, b\<lparr>retries := retries b + length es\<rparr>, streak (retries b) es @ [Connect])"
  using retry_loop_streak [of es b "[]"] assms by simp

text \<open>
  C1, as the spec states it, fails: a streak does not always start with the counter at 0.
  After a connection on which a frame arrives the counter is 1, and a streak of nine
  failed connects, fewer than \<open>max_retries\<close>, takes it to 10: the loop is left after the
  ninth wait and no connect follows the ninth failure.
\<close>

theorem streak_counterexample:
  "retry_loop new_bot
     [ConnectOk [Data Decodable],
      ConnectRaises OSError, ConnectRaises OSError, ConnectRaises OSError,
      ConnectRaises OSError, ConnectRaises OSError, ConnectRaises OSError,
      ConnectRaises OSError, ConnectRaises OSError, ConnectRaises OSError] =
     (Exhausted, new_bot\<lparr>retries := 10\<rparr>,
      [Connect, LogConnected, Recv, Close, LogFailed 1 AttributeError, Sleep 2,
       Connect, LogFailed 2 OSError, Sleep 4,
       Connect, LogFailed 3 OSError, Sleep 8,
       Connect, LogFailed 4 OSError, Sleep 16,
       Connect, LogFailed 5 OSError, Sleep 32,
       Connect, LogFailed 6 OSError, Sleep 64,
       Connect, LogFailed 7 OSError, Sleep 128,
       Connect, LogFailed 8 OSError, Sleep 256,
       Connect, LogFailed 9 OSError, Sleep 300,
       Connect, LogFailed 10 OSError, Sleep 300])"
  by (simp add: new_bot_def on_exception_def backoff_def handle_frame_raises)

text \<open>
  C1, amended. A streak of \<open>N\<close> failed connects that starts with the counter at \<open>r\<close>,
  with \<open>r + N\<close> at most \<open>max_retries\<close>: after each failure the counter is incremented, the
  failure is logged with the new counter \<open>k\<close> and the loop sleeps \<open>min (2 ^ k) 300\<close>, so
  the counters are \<open>r + 1, ..., r + N\<close> and the waits never decrease and never exceed 300.
  When \<open>r + N\<close> is below \<open>max_retries\<close> every failure is followed by a connect, so the loop
  connects \<open>N + 1\<close> times (the first attempt and \<open>N\<close> reattempts) and has not given up.
  When \<open>r + N\<close> reaches \<open>max_retries\<close> the loop is left after the last wait, without a
  connect after the last failure.
\<close>

theorem failure_streak_backoff:
  assumes "retries b + length es \<le> max_retries b" and "\<forall>e\<in>set es. is_Exception e"
  shows "case retry_loop b (map ConnectRaises es) of
           (r, b', tr) \<Rightarrow>
             r = (if retries b + length es < max_retries b then Starved else Exhausted)
           \<and> retries b' = retries b + length es
           \<and> tr = concat (map2 (\<lambda>k e. [Connect, LogFailed k e, Sleep (min (2 ^ k) 300)])
                           [Suc (retries b)..<Suc (retries b + length es)] es)
                  @ (if retries b + length es < max_retries b then [Connect] else [])
           \<and> connects tr =
               (if retries b + length es < max_retries b then Suc (length es) else length es)
           \<and> counters tr = [Suc (retries b)..<Suc (retries b + length es)]
           \<and> waits tr = map (\<lambda>k. min (2 ^ k) 300) [Suc (retries b)..<Suc (retries b + length es)]
           \<and> sorted (waits tr) \<and> (\<forall>w\<in>set (waits tr). w \<le> 300)"
proof -
  let ?lt = "retries b + length es < max_retries b"
  let ?end = "if ?lt then [Connect] else []"
  let ?tr = "streak (retries b) es @ ?end"
  let ?ks = "[Suc (retries b)..<Suc (retries b + length es)]"
  have tail: "retry_loop (b\<lparr>retries := retries b + length es\<rparr>) [] =
      (if ?lt then Starved else Exhausted, b\<lparr>retries := retries b + length es\<rparr>, ?end)"
    by simp
  have run: "retry_loop b (map ConnectRaises es) =
      (if ?lt then Starved else Exhausted, b\<lparr>retries := retries b + length es\<rparr>, ?tr)"
    using retry_loop_streak [OF assms(2,1), of "[]"] by (simp only: tail append_Nil2 prod.case)
  have w: "waits ?tr = map backoff ?ks"
    by (simp add: waits_append waits_streak)
  have b: "map backoff ?ks = map (\<lambda>k. min (2 ^ k) 300) ?ks"
    by (simp add: backoff_def)
  have s: "sorted (waits ?tr)"
    unfolding w by (rule sorted_map_backoff)
  have c: "\<forall>w\<in>set (waits ?tr). w \<le> 300"
    unfolding w by (auto simp: backoff_le_cap)
  have k: "counters ?tr = ?ks"
    by (simp add: counters_append counters_streak)
  have n: "connects ?tr = (if ?lt then Suc (length es) else length es)"
    by (simp add: connects_append connects_streak)
  have t: "?tr = concat (map2 (\<lambda>k e. [Connect, LogFailed k e, Sleep (min (2 ^ k) 300)]) ?ks es) @ ?end"
    using streak_concat [of "retries b" es] by simp
  have w': "waits ?tr = map (\<lambda>k. min (2 ^ k) 300) ?ks"
    using w b by (rule trans)
  have len: "retries (b\<lparr>retries := retries b + length es\<rparr>) = retries b + length es"
    by simp
  show ?thesis
    unfolding run prod.case using len t n k w' s c by blast
qed

text \<open>
  C1, amended, at a streak of three failed connects that starts with the counter at 1:
  the waits are 4, 8 and 16 and a fourth connect follows.
\<close>

theorem failure_streak_backoff_witness:
  "retries (new_bot\<lparr>retries := 1\<rparr>) + length [OSError, InvalidHandshake, TimeoutError]
     \<le> max_retries (new_bot\<lparr>retries := 1\<rparr>)
   \<and> is_Exception OSError \<and> is_Exception InvalidHandshake \<and> is_Exception TimeoutError
   \<and> retry_loop (new_bot\<lparr>retries := 1\<rparr>)
        (map ConnectRaises [OSError, InvalidHandshake, TimeoutError]) =
       (Starved, new_bot\<lparr>retries := 4\<rparr>,
        [Connect, LogFailed 2 OSError, Sleep 4,
         Connect, LogFailed 3 InvalidHandshake, Sleep 8,
         Connect, LogFailed 4 TimeoutError, Sleep 16, Connect])
   \<and> waits (snd (snd (retry_loop (new_bot\<lparr>retries := 1\<rparr>)
        (map ConnectRaises [OSError, InvalidHandshake, TimeoutError])))) = [4, 8, 16]"
  using failure_streak_backoff [of "new_bot\<lparr>retries := 1\<rparr>" "[OSError, InvalidHandshake, TimeoutError]"]
  by (simp add: new_bot_def on_exception_def backoff_def)

subsection \<open>One pass, by the first thing that happens on the connection\<close>

lemma attempt_frame:
  "attempt b (ConnectOk (Data f # evs)) =
     (Next, b\<lparr>retries := 1\<rparr>,
      [Connect, LogConnected, Recv, Close, LogFailed 1 AttributeError, Sleep 2])"
  by (simp add: handle_frame_raises on_exception_def backoff_def)

lemma attempt_idle:
  "e = TimeoutError \<or> e = ConnectionClosed \<Longrightarrow>
   attempt b (ConnectOk (RecvRaises e # evs)) =
     (Next, b\<lparr>retries := 0\<rparr>, [Connect, LogConnected, Recv, LogTimeout, Close])"
  by auto

lemma attempt_raises:
  "try_body ev = Some e \<Longrightarrow> is_Exception e \<Longrightarrow> e \<noteq> TimeoutError \<Longrightarrow> e \<noteq> ConnectionClosed \<Longrightarrow>
   attempt b (ConnectOk (ev # evs)) =
     (Next, b\<lparr>retries := 1\<rparr>, [Connect, LogConnected, Recv, Close, LogFailed 1 e, Sleep 2])"
  by (simp add: on_exception_def backoff_def)

lemma malformed_raises:
  "\<exists>e. try_body (Data Malformed) = Some e \<and> is_Exception e \<and> e \<noteq> TimeoutError \<and> e \<noteq> ConnectionClosed"
  by (simp add: handle_frame_def)

lemma attempt_pending:
  "attempt b (ConnectOk []) = (Suspended, b\<lparr>retries := 0\<rparr>, [Connect, LogConnected, Recv])"
  by simp

lemma retry_loop_Next:
  "retries b < max_retries b \<Longrightarrow> attempt b c = (Next, b', tr) \<Longrightarrow>
   retry_loop b (c # cs) = (case retry_loop b' cs of (r, b'', tr') \<Rightarrow> (r, b'', tr @ tr'))"
  by (simp del: attempt.simps)

lemma ends_idle_attempt:
  "ends_idle c \<Longrightarrow>
   attempt b c = (Next, b\<lparr>retries := 0\<rparr>, [Connect, LogConnected, Recv, LogTimeout, Close])"
  by (induction c rule: ends_idle.induct) (simp_all only: ends_idle.simps attempt_idle)

lemma retry_loop_idle:
  "\<forall>c\<in>set cs. ends_idle c \<Longrightarrow> retries b < max_retries b \<Longrightarrow>
   retry_loop b cs =
     (Starved, (if cs = [] then b else b\<lparr>retries := 0\<rparr>),
      concat (map (\<lambda>c. [Connect, LogConnected, Recv, LogTimeout, Close]) cs) @ [Connect])"
proof (induction cs arbitrary: b)
  case Nil
  then show ?case by simp
next
  case (Cons c cs)
  let ?b = "b\<lparr>retries := 0\<rparr>"
  from Cons.prems have c: "ends_idle c" and lt: "retries ?b < max_retries ?b" by auto
  have IH: "retry_loop ?b cs =
     (Starved, (if cs = [] then ?b else ?b\<lparr>retries := 0\<rparr>),
      concat (map (\<lambda>c. [Connect, LogConnected, Recv, LogTimeout, Close]) cs) @ [Connect])"
    using Cons.prems lt by (intro Cons.IH) auto
  show ?case
    using retry_loop_Next [OF Cons.prems(2) ends_idle_attempt [OF c], of cs] IH by simp
qed

lemma waits_idle: "waits (concat (map (\<lambda>c. [Connect, LogConnected, Recv, LogTimeout, Close]) cs)) = []"
  by (induction cs) auto

lemma counters_idle: "counters (concat (map (\<lambda>c. [Connect, LogConnected, Recv, LogTimeout, Close]) cs)) = []"
  by (induction cs) auto

lemma connects_idle: "connects (concat (map (\<lambda>c. [Connect, LogConnected, Recv, LogTimeout, Close]) cs)) = length cs"
  by (induction cs) auto

subsection \<open>When the counter is reset\<close>

lemma retry_loop_Nil:
  "retry_loop b [] =
     (if retries b < max_retries b then Starved else Exhausted, b,
      if retries b < max_retries b then [Connect] else [])"
  by simp

lemma after_raise:
  assumes "retries b < max_retries b" and "try_body ev = Some e" and "is_Exception e"
    and "e \<noteq> TimeoutError" and "e \<noteq> ConnectionClosed"
  shows "retry_loop b [ConnectOk (ev # evs)] =
           (if 1 < max_retries b then Starved else Exhausted, b\<lparr>retries := 1\<rparr>,
            [Connect, LogConnected, Recv, Close, LogFailed 1 e, Sleep 2]
            @ (if 1 < max_retries b then [Connect] else []))"
  using retry_loop_Next [OF assms(1) attempt_raises [OF assms(2-5)], of evs "[]"]
  by (simp only: retry_loop_Nil prod.case) simp

lemma after_idle:
  assumes "retries b < max_retries b" and "ends_idle c" and "is_Exception e'"
  shows "retry_loop b [c, ConnectRaises e'] =
           (if 1 < max_retries b then Starved else Exhausted, b\<lparr>retries := 1\<rparr>,
            [Connect, LogConnected, Recv, LogTimeout, Close, Connect, LogFailed 1 e', Sleep 2]
            @ (if 1 < max_retries b then [Connect] else []))"
proof -
  let ?b0 = "b\<lparr>retries := 0\<rparr>"
  have pos: "retries ?b0 < max_retries ?b0" using assms(1) by simp
  have 2: "retry_loop ?b0 [ConnectRaises e'] =
      (if 1 < max_retries b then Starved else Exhausted, b\<lparr>retries := 1\<rparr>,
       [Connect, LogFailed 1 e', Sleep 2] @ (if 1 < max_retries b then [Connect] else []))"
    using retry_loop_Next [OF pos attempt_ConnectRaises [OF assms(3)], of "[]"]
    by (simp only: retry_loop_Nil prod.case) (simp add: backoff_def)
  show ?thesis
    using retry_loop_Next [OF assms(1) ends_idle_attempt [OF assms(2)], of "[ConnectRaises e']"]
    by (simp only: 2 prod.case) simp
qed

text \<open>
  C2, as the spec states it, fails. The counter is reset when the connect succeeds, not
  when a first message arrives: after three failed connects the counter is 3, and a
  fourth connect that succeeds leaves it at 0 while the first receive is still pending
  and no message has been received. And a tick that is received does not leave the
  counter at 0: the connection on which a frame arrives ends with the counter at 1.
\<close>

theorem counter_reset_counterexample:
  "retries (fst (snd (retry_loop new_bot
      [ConnectRaises OSError, ConnectRaises OSError, ConnectRaises OSError]))) = 3
   \<and> retry_loop new_bot
        [ConnectRaises OSError, ConnectRaises OSError, ConnectRaises OSError, ConnectOk []] =
       (Starved, new_bot\<lparr>retries := 0\<rparr>,
        [Connect, LogFailed 1 OSError, Sleep 2, Connect, LogFailed 2 OSError, Sleep 4,
         Connect, LogFailed 3 OSError, Sleep 8, Connect, LogConnected, Recv])
   \<and> retry_loop new_bot [ConnectOk [Data Decodable]] =
       (Starved, new_bot\<lparr>retries := 1\<rparr>,
        [Connect, LogConnected, Recv, Close, LogFailed 1 AttributeError, Sleep 2, Connect])"
  by (simp add: new_bot_def on_exception_def backoff_def handle_frame_raises)

text \<open>
  C2, amended. The counter is reset to 0 exactly when a connect succeeds, before any
  message. From any counter, a streak of \<open>K\<close> failed connects adds \<open>K\<close> to it and never
  resets it; a successful connect after the streak leaves it at 0 with nothing received
  yet. The first failure after that success waits \<open>2 ^ 1\<close>, not \<open>2 ^ (K + 1)\<close>: when the
  body of the receive loop raises an exception other than a timeout or a closed
  connection, the connection ends with the counter at 1 and a wait of 2; when the
  connection ends idle the counter is still 0, and the next failed connect takes it to 1
  and waits 2.
\<close>

theorem counter_reset_on_connect:
  assumes "retries b + length es < max_retries b" and "\<forall>e\<in>set es. is_Exception e"
  shows "fst (snd (retry_loop b (map ConnectRaises es))) = b\<lparr>retries := retries b + length es\<rparr>
       \<and> fst (snd (retry_loop b (map ConnectRaises es @ [ConnectOk []]))) = b\<lparr>retries := 0\<rparr>
       \<and> (try_body ev = Some e \<and> is_Exception e \<and> e \<noteq> TimeoutError \<and> e \<noteq> ConnectionClosed \<longrightarrow>
            fst (snd (retry_loop b (map ConnectRaises es @ [ConnectOk (ev # evs)]))) = b\<lparr>retries := 1\<rparr>
          \<and> waits (snd (snd (retry_loop b (map ConnectRaises es @ [ConnectOk (ev # evs)])))) =
              map (\<lambda>k. min (2 ^ k) 300) [Suc (retries b)..<Suc (retries b + length es)] @ [2])
       \<and> (ends_idle c \<and> is_Exception e' \<longrightarrow>
            fst (snd (retry_loop b (map ConnectRaises es @ [c]))) = b\<lparr>retries := 0\<rparr>
          \<and> fst (snd (retry_loop b (map ConnectRaises es @ [c, ConnectRaises e']))) = b\<lparr>retries := 1\<rparr>
          \<and> waits (snd (snd (retry_loop b (map ConnectRaises es @ [c, ConnectRaises e'])))) =
              map (\<lambda>k. min (2 ^ k) 300) [Suc (retries b)..<Suc (retries b + length es)] @ [2])"
proof -
  let ?b = "b\<lparr>retries := retries b + length es\<rparr>"
  let ?ws = "map (\<lambda>k. min (2 ^ k) 300) [Suc (retries b)..<Suc (retries b + length es)]"
  have le: "retries b + length es \<le> max_retries b" using assms(1) by simp
  have lt: "retries ?b < max_retries ?b" using assms(1) by simp
  have ws: "waits (streak (retries b) es) = ?ws"
    by (simp add: waits_streak backoff_def)
  have split: "\<And>rest. retry_loop b (map ConnectRaises es @ rest) =
      (case retry_loop ?b rest of (r, b', tr) \<Rightarrow> (r, b', streak (retries b) es @ tr))"
    by (rule retry_loop_streak [OF assms(2) le])
  have 1: "fst (snd (retry_loop b (map ConnectRaises es))) = ?b"
    using retry_loop_streak_end [OF assms(2,1)] by simp
  have 2: "fst (snd (retry_loop b (map ConnectRaises es @ [ConnectOk []]))) = b\<lparr>retries := 0\<rparr>"
    unfolding split using lt by simp
  have 3: "try_body ev = Some e \<and> is_Exception e \<and> e \<noteq> TimeoutError \<and> e \<noteq> ConnectionClosed \<longrightarrow>
            fst (snd (retry_loop b (map ConnectRaises es @ [ConnectOk (ev # evs)]))) = b\<lparr>retries := 1\<rparr>
          \<and> waits (snd (snd (retry_loop b (map ConnectRaises es @ [ConnectOk (ev # evs)])))) = ?ws @ [2]"
  proof (intro impI, elim conjE)
    assume a: "try_body ev = Some e" "is_Exception e" "e \<noteq> TimeoutError" "e \<noteq> ConnectionClosed"
    show "fst (snd (retry_loop b (map ConnectRaises es @ [ConnectOk (ev # evs)]))) = b\<lparr>retries := 1\<rparr>
          \<and> waits (snd (snd (retry_loop b (map ConnectRaises es @ [ConnectOk (ev # evs)])))) = ?ws @ [2]"
      unfolding split after_raise [OF lt a] prod.case
      by (simp add: waits_append ws)
  qed
  have 4: "ends_idle c \<and> is_Exception e' \<longrightarrow>
            fst (snd (retry_loop b (map ConnectRaises es @ [c]))) = b\<lparr>retries := 0\<rparr>
          \<and> fst (snd (retry_loop b (map ConnectRaises es @ [c, ConnectRaises e']))) = b\<lparr>retries := 1\<rparr>
          \<and> waits (snd (snd (retry_loop b (map ConnectRaises es @ [c, ConnectRaises e'])))) = ?ws @ [2]"
  proof (intro impI, elim conjE)
    assume a: "ends_idle c" "is_Exception e'"
    have idle: "retry_loop ?b [c] =
        (Starved, b\<lparr>retries := 0\<rparr>, [Connect, LogConnected, Recv, LogTimeout, Close, Connect])"
      using retry_loop_idle [of "[c]" ?b] a(1) lt by simp
    have i: "fst (snd (retry_loop b (map ConnectRaises es @ [c]))) = b\<lparr>retries := 0\<rparr>"
      unfolding split idle prod.case by simp
    have ii: "fst (snd (retry_loop b (map ConnectRaises es @ [c, ConnectRaises e']))) = b\<lparr>retries := 1\<rparr>
          \<and> waits (snd (snd (retry_loop b (map ConnectRaises es @ [c, ConnectRaises e'])))) = ?ws @ [2]"
      unfolding split after_idle [OF lt a] prod.case
      by (simp add: waits_append ws)
    show "fst (snd (retry_loop b (map ConnectRaises es @ [c]))) = b\<lparr>retries := 0\<rparr>
          \<and> fst (snd (retry_loop b (map ConnectRaises es @ [c, ConnectRaises e']))) = b\<lparr>retries := 1\<rparr>
          \<and> waits (snd (snd (retry_loop b (map ConnectRaises es @ [c, ConnectRaises e'])))) = ?ws @ [2]"
      using i ii by blast
  qed
  show ?thesis using 1 2 3 4 by blast
qed

text \<open>
  C2, amended, at three failed connects from counter 1, followed by a connection whose
  receive raises, or by one that times out and one more failed connect: the waits are
  4, 8, 16 and then 2.
\<close>

theorem counter_reset_on_connect_witness:
  "retries (new_bot\<lparr>retries := 1\<rparr>) + length [OSError, OSError, OSError]
     < max_retries (new_bot\<lparr>retries := 1\<rparr>)
   \<and> is_Exception OSError
   \<and> fst (snd (retry_loop (new_bot\<lparr>retries := 1\<rparr>)
        (map ConnectRaises [OSError, OSError, OSError] @ [ConnectOk []]))) = new_bot\<lparr>retries := 0\<rparr>
   \<and> try_body (RecvRaises RuntimeError) = Some RuntimeError \<and> is_Exception RuntimeError
   \<and> RuntimeError \<noteq> TimeoutError \<and> RuntimeError \<noteq> ConnectionClosed
   \<and> waits (snd (snd (retry_loop (new_bot\<lparr>retries := 1\<rparr>)
        (map ConnectRaises [OSError, OSError, OSError] @ [ConnectOk [RecvRaises RuntimeError]])))) =
       [4, 8, 16, 2]
   \<and> ends_idle (ConnectOk [RecvRaises TimeoutError]) \<and> is_Exception InvalidHandshake
   \<and> waits (snd (snd (retry_loop (new_bot\<lparr>retries := 1\<rparr>)
        (map ConnectRaises [OSError, OSError, OSError] @
         [ConnectOk [RecvRaises TimeoutError], ConnectRaises InvalidHandshake])))) = [4, 8, 16, 2]"
  using counter_reset_on_connect [of "new_bot\<lparr>retries := 1\<rparr>" "[OSError, OSError, OSError]"
      "RecvRaises RuntimeError" RuntimeError "[]" "ConnectOk [RecvRaises TimeoutError]" InvalidHandshake]
  by (simp add: new_bot_def on_exception_def backoff_def)

subsection \<open>Idle timeout and closed connection\<close>

text \<open>
  C3, as the spec states it, fails. A connection whose receive times out, followed by one
  that is closed: the loop reconnects each time without incrementing the counter and
  without any sleep.
\<close>

theorem idle_reconnect_counterexample:
  "retry_loop new_bot [ConnectOk [RecvRaises TimeoutError], ConnectOk [RecvRaises ConnectionClosed]] =
     (Starved, new_bot,
      [Connect, LogConnected, Recv, LogTimeout, Close,
       Connect, LogConnected, Recv, LogTimeout, Close, Connect])
   \<and> waits (snd (snd (retry_loop new_bot
        [ConnectOk [RecvRaises TimeoutError], ConnectOk [RecvRaises ConnectionClosed]]))) = []"
  by (simp add: new_bot_def)

text \<open>
  C3, amended. When the first receive of a connection times out or reports the connection
  closed, the loop logs a warning, closes the connection and connects again at once: over
  any number of such connections the counter stays 0, nothing is logged as a failure, no
  sleep happens and the loop never gives up. A sleep follows the other failures only: a
  connect that raises is followed by a sleep of \<open>min (2 ^ (retries + 1)) 300\<close>, which is at
  least 2, and a connection whose receive loop is left by any other exception by a sleep
  of 2.
\<close>

theorem idle_reconnects_without_wait:
  assumes "retries b < max_retries b" and "\<forall>c\<in>set cs. ends_idle c"
  shows "(case retry_loop b cs of
           (r, b', tr) \<Rightarrow>
             r = Starved \<and> retries b' = (if cs = [] then retries b else 0)
           \<and> tr = concat (map (\<lambda>c. [Connect, LogConnected, Recv, LogTimeout, Close]) cs) @ [Connect]
           \<and> waits tr = [] \<and> counters tr = [] \<and> connects tr = Suc (length cs))
       \<and> (is_Exception e \<longrightarrow>
            waits (snd (snd (attempt b (ConnectRaises e)))) = [min (2 ^ Suc (retries b)) 300]
          \<and> 2 \<le> min (2 ^ Suc (retries b)) (300::nat))
       \<and> (try_body ev = Some e \<and> is_Exception e \<and> e \<noteq> TimeoutError \<and> e \<noteq> ConnectionClosed \<longrightarrow>
            waits (snd (snd (attempt b (ConnectOk (ev # evs))))) = [2])"
proof -
  have 1: "retry_loop b cs =
     (Starved, (if cs = [] then b else b\<lparr>retries := 0\<rparr>),
      concat (map (\<lambda>c. [Connect, LogConnected, Recv, LogTimeout, Close]) cs) @ [Connect])"
    using assms by (intro retry_loop_idle)
  have 2: "is_Exception e \<longrightarrow>
            waits (snd (snd (attempt b (ConnectRaises e)))) = [min (2 ^ Suc (retries b)) 300]
          \<and> 2 \<le> min (2 ^ Suc (retries b)) (300::nat)"
    by (simp add: on_exception_def backoff_def)
  have 3: "try_body ev = Some e \<and> is_Exception e \<and> e \<noteq> TimeoutError \<and> e \<noteq> ConnectionClosed \<longrightarrow>
            waits (snd (snd (attempt b (ConnectOk (ev # evs))))) = [2]"
    by (simp add: attempt_raises del: attempt.simps)
  have 4: "retries (if cs = [] then b else b\<lparr>retries := 0\<rparr>) = (if cs = [] then retries b else 0)"
    by simp
  show ?thesis
    unfolding 1 prod.case
    using 2 3 4 by (simp add: waits_append waits_idle counters_append counters_idle
        connects_append connects_idle del: attempt.simps)
qed

text \<open>
  C3, amended, at a timeout followed by a closed connection, at a refused connect and at
  a receive that raises \<^verbatim>\<open>OSError\<close>.
\<close>

theorem idle_reconnects_without_wait_witness:
  "retries new_bot < max_retries new_bot
   \<and> ends_idle (ConnectOk [RecvRaises TimeoutError])
   \<and> ends_idle (ConnectOk [RecvRaises ConnectionClosed, Data Decodable])
   \<and> retry_loop new_bot
        [ConnectOk [RecvRaises TimeoutError], ConnectOk [RecvRaises ConnectionClosed, Data Decodable]] =
       (Starved, new_bot,
        [Connect, LogConnected, Recv, LogTimeout, Close,
         Connect, LogConnected, Recv, LogTimeout, Close, Connect])
   \<and> is_Exception OSError
   \<and> waits (snd (snd (attempt new_bot (ConnectRaises OSError)))) = [2]
   \<and> try_body (RecvRaises OSError) = Some OSError
   \<and> waits (snd (snd (attempt new_bot (ConnectOk [RecvRaises OSError])))) = [2]"
  using idle_reconnects_without_wait [of new_bot
      "[ConnectOk [RecvRaises TimeoutError], ConnectOk [RecvRaises ConnectionClosed, Data Decodable]]"
      OSError "RecvRaises OSError" "[]"]
  by (simp add: new_bot_def on_exception_def backoff_def)

subsection \<open>A frame on the connection\<close>

text \<open>
  C5, as the spec states it, fails. A malformed frame followed by a good one on the same
  connection: after the first frame the connection is closed, the counter becomes 1, the
  loop sleeps 2 and connects again; the second frame is never received.
\<close>

theorem malformed_frame_counterexample:
  "retry_loop new_bot [ConnectOk [Data Malformed, Data Decodable]] =
     (Starved, new_bot\<lparr>retries := 1\<rparr>,
      [Connect, LogConnected, Recv, Close, LogFailed 1 AttributeError, Sleep 2, Connect])"
  by (simp add: new_bot_def handle_frame_raises on_exception_def backoff_def)

text \<open>
  C5, amended. An exception raised in the body of the receive loop, other than a timeout
  or a closed connection, is not recovered there. It leaves the loop, the connection is
  closed, the frames that would have followed on it are never received, the counter
  becomes 1, the failure is logged, the loop sleeps 2 and goes on with the next connect.
  Handling a malformed frame raises such an exception.
\<close>

theorem frame_error_not_recovered:
  assumes "retries b < max_retries b" and "try_body ev = Some e"
    and "is_Exception e" and "e \<noteq> TimeoutError" and "e \<noteq> ConnectionClosed"
  shows "retry_loop b (ConnectOk (ev # evs) # cs) =
           (case retry_loop (b\<lparr>retries := 1\<rparr>) cs of
              (r, b', tr) \<Rightarrow>
                (r, b', [Connect, LogConnected, Recv, Close, LogFailed 1 e, Sleep 2] @ tr))
       \<and> (\<exists>e'. try_body (Data Malformed) = Some e' \<and> is_Exception e'
              \<and> e' \<noteq> TimeoutError \<and> e' \<noteq> ConnectionClosed)"
  using retry_loop_Next [OF assms(1) attempt_raises [OF assms(2-5)], of evs cs] malformed_raises
  by simp

text \<open>
  C5, amended, at a malformed frame followed by a good one, and a next connection that
  stays open.
\<close>

theorem frame_error_not_recovered_witness:
  "retries new_bot < max_retries new_bot
   \<and> try_body (Data Malformed) = Some AttributeError
   \<and> is_Exception AttributeError \<and> AttributeError \<noteq> TimeoutError \<and> AttributeError \<noteq> ConnectionClosed
   \<and> retry_loop new_bot [ConnectOk [Data Malformed, Data Decodable], ConnectOk []] =
       (Starved, new_bot\<lparr>retries := 0\<rparr>,
        [Connect, LogConnected, Recv, Close, LogFailed 1 AttributeError, Sleep 2,
         Connect, LogConnected, Recv])"
  using frame_error_not_recovered [of new_bot "Data Malformed" AttributeError "[Data Decodable]" "[ConnectOk []]"]
  by (simp add: new_bot_def handle_frame_raises)

text \<open>
  C6. The class has no attribute \<open>process_data\<close>, so handling any received frame raises
  \<^verbatim>\<open>AttributeError\<close>. The inner handler does not catch it: it leaves the receive loop,
  the connection is closed, and the outer handler counts it as a failure, setting the
  counter to 1 and sleeping 2. No frame is ever processed.
\<close>

theorem frame_raises_AttributeError:
  "handle_frame f = Some AttributeError
   \<and> recv_loop (Data f # evs) = (Raised AttributeError, [Recv])
   \<and> attempt b (ConnectOk (Data f # evs)) =
       (Next, b\<lparr>retries := 1\<rparr>,
        [Connect, LogConnected, Recv, Close, LogFailed 1 AttributeError, Sleep 2])"
  by (simp add: handle_frame_raises on_exception_def backoff_def)

text \<open>
  C6, at a connection that delivers two decodable frames: the first raises, the second is
  never received.
\<close>

theorem frame_raises_AttributeError_witness:
  "handle_frame Decodable = Some AttributeError
   \<and> recv_loop [Data Decodable, Data Decodable] = (Raised AttributeError, [Recv])
   \<and> retries (fst (snd (attempt new_bot (ConnectOk [Data Decodable, Data Decodable])))) = 1"
  using frame_raises_AttributeError [of Decodable "[Data Decodable]" new_bot]
  by (simp del: attempt.simps recv_loop.simps)

subsection \<open>Giving up\<close>

text \<open>
  Failed connects that take the counter to \<open>max_retries\<close> end the loop; from the new bot
  that is ten of them. The last failure is still followed by its sleep, and the loop is
  left once: nothing after it connects again.
\<close>

lemma retry_loop_exhausted:
  assumes "\<forall>e\<in>set es. is_Exception e" and "retries b + length es = max_retries b"
  shows "retry_loop b (map ConnectRaises es) =
           (Exhausted, b\<lparr>retries := max_retries b\<rparr>, streak (retries b) es)"
  using retry_loop_streak [of es b "[]"] assms by simp

section \<open>Properties of the shutdown procedure\<close>

lemma cancelled_append: "cancelled (xs @ ys) = cancelled xs @ cancelled ys"
  by (induction xs rule: cancelled.induct) auto

lemma cancelled_Cancel: "cancelled (map (\<lambda>t. Cancel (tid t)) ts @ tr) = map tid ts @ cancelled tr"
  by (induction ts) auto

lemma shutdown_cases:
  "shutdown cur ts stop shut =
     (let tasks = filter (\<lambda>t. tid t \<noteq> cur) ts;
          tr = LogShutdown # map (\<lambda>t. Cancel (tid t)) tasks @ [AwaitTasks]
      in if NeverEnds \<in> on_cancel ` set tasks then (Hangs, tr)
         else if cancels_caller cur tasks then (ShutdownRaises CancelledError, tr)
         else if stop \<noteq> None then (ShutdownRaises (the stop), tr @ [AppStop])
         else if shut \<noteq> None then (ShutdownRaises (the shut), tr @ [AppStop, AppShutdown])
         else (Completed, tr @ [AppStop, AppShutdown, LogShutdownComplete]))"
  by (auto simp: shutdown_def gather_all_def Let_def split: option.splits)

lemma cancelled_shutdown:
  "cancelled (snd (shutdown cur ts stop shut)) = map tid (filter (\<lambda>t. tid t \<noteq> cur) ts)"
  by (simp add: shutdown_cases Let_def cancelled_Cancel)

text \<open>
  C8, as the spec states it, fails. No timeout bounds the wait for the cancelled tasks:
  when the task of \<^verbatim>\<open>start\<close> runs the procedure and one pending task never ends once
  cancelled, the procedure cancels the others, waits, and never returns; the Telegram
  application is neither stopped nor shut down.
\<close>

theorem shutdown_timeout_counterexample:
  "shutdown 0 [start_task, listener_task, \<lparr>tid = 6, on_cancel = NeverEnds, awaits = []\<rparr>] None None =
     (Hangs, [LogShutdown, Cancel 1, Cancel 6, AwaitTasks])"
  by (simp add: shutdown_def gather_all_def start_task_def listener_task_def)

text \<open>
  C8, amended. The procedure cancels every task but the one that runs it and waits for
  all of them with no timeout. It waits forever exactly when one of them never ends, and
  then does nothing more: no task is abandoned and nothing further is logged.
  It calls \<^verbatim>\<open>app.stop()\<close> exactly when all of them have ended and the await returns to
  the caller, that is, when cancelling them has not cancelled the caller in turn; it calls
  \<^verbatim>\<open>app.shutdown()\<close> exactly when it has called \<^verbatim>\<open>app.stop()\<close> and that has returned; and
  it completes exactly when \<^verbatim>\<open>app.shutdown()\<close> has returned too.
\<close>

theorem shutdown_waits_without_timeout:
  "case shutdown cur ts stop shut of
     (r, tr) \<Rightarrow>
       cancelled tr = map tid (filter (\<lambda>t. tid t \<noteq> cur) ts)
     \<and> (r = Hangs \<longleftrightarrow> NeverEnds \<in> on_cancel ` {t \<in> set ts. tid t \<noteq> cur})
     \<and> (r = Hangs \<longrightarrow>
          tr = LogShutdown # map (\<lambda>t. Cancel (tid t)) (filter (\<lambda>t. tid t \<noteq> cur) ts) @ [AwaitTasks])
     \<and> (AppStop \<in> set tr \<longleftrightarrow>
          NeverEnds \<notin> on_cancel ` {t \<in> set ts. tid t \<noteq> cur}
        \<and> \<not> cancels_caller cur (filter (\<lambda>t. tid t \<noteq> cur) ts))
     \<and> (AppShutdown \<in> set tr \<longleftrightarrow> AppStop \<in> set tr \<and> stop = None)
     \<and> (r = Completed \<longleftrightarrow> AppShutdown \<in> set tr \<and> shut = None)"
proof -
  have s: "set (filter (\<lambda>t. tid t \<noteq> cur) ts) = {t \<in> set ts. tid t \<noteq> cur}"
    by auto
  have n1: "\<And>xs. AppStop \<notin> set (map (\<lambda>t. Cancel (tid t)) xs)"
    by auto
  have n2: "\<And>xs. AppShutdown \<notin> set (map (\<lambda>t. Cancel (tid t)) xs)"
    by auto
  show ?thesis
    unfolding shutdown_cases Let_def s
    by (auto simp: cancelled_Cancel n1 n2)
qed

text \<open>
  C8, amended, at three runs in the task of \<^verbatim>\<open>start\<close>: all tasks end and both library
  calls return; \<^verbatim>\<open>app.stop()\<close> raises; a pending task never ends.
\<close>

theorem shutdown_waits_without_timeout_witness:
  "shutdown 0 [start_task, listener_task, \<lparr>tid = 5, on_cancel = EndsCancelled, awaits = []\<rparr>] None None =
     (Completed, [LogShutdown, Cancel 1, Cancel 5, AwaitTasks, AppStop, AppShutdown, LogShutdownComplete])
   \<and> shutdown 0 [start_task, listener_task] (Some RuntimeError) None =
     (ShutdownRaises RuntimeError, [LogShutdown, Cancel 1, AwaitTasks, AppStop])
   \<and> fst (shutdown 0 [start_task, listener_task, \<lparr>tid = 6, on_cancel = NeverEnds, awaits = []\<rparr>] None None) = Hangs"
  using shutdown_waits_without_timeout [where cur = 0 and stop = None and shut = None
      and ts = "[start_task, listener_task, \<lparr>tid = 5, on_cancel = EndsCancelled, awaits = []\<rparr>]"]
    shutdown_waits_without_timeout [where cur = 0 and stop = "Some RuntimeError" and shut = None
      and ts = "[start_task, listener_task]"]
    shutdown_waits_without_timeout [where cur = 0 and stop = None and shut = None
      and ts = "[start_task, listener_task, \<lparr>tid = 6, on_cancel = NeverEnds, awaits = []\<rparr>]"]
  by (simp add: shutdown_def gather_all_def cancels_caller_def start_task_def listener_task_def)

text \<open>
  C10 at the program's own halt. The listener (task 1) runs the procedure while the task
  of \<^verbatim>\<open>start\<close> (task 0, which gathers the listener) and the monitor (task 5) are pending.
  Both end once cancelled, yet the procedure does not go on to stop the Telegram
  application: cancelling the task of \<^verbatim>\<open>start\<close> cancels the listener in turn, and the
  await of the cancelled tasks raises \<^verbatim>\<open>CancelledError\<close> in it.
\<close>

theorem shutdown_at_halt:
  "shutdown 1 [start_task, listener_task, \<lparr>tid = 5, on_cancel = EndsCancelled, awaits = []\<rparr>] None None =
     (ShutdownRaises CancelledError, [LogShutdown, Cancel 0, Cancel 5, AwaitTasks])"
  by (simp add: shutdown_def gather_all_def cancels_caller_def start_task_def listener_task_def)

text \<open>
  C4 at ten failed connects of the new bot. The loop is left once, the maximum is logged
  once and the shutdown procedure is entered once, but it is not run to its end: the
  listener ends with \<^verbatim>\<open>CancelledError\<close> in the await of the cancelled tasks, and the
  Telegram application is neither stopped nor shut down.
\<close>

theorem listener_at_halt:
  "websocket_listener new_bot [\<lparr>tid = 5, on_cancel = EndsCancelled, awaits = []\<rparr>] None None
     [ConnectRaises OSError, ConnectRaises OSError, ConnectRaises OSError, ConnectRaises OSError,
      ConnectRaises OSError, ConnectRaises OSError, ConnectRaises OSError, ConnectRaises OSError,
      ConnectRaises OSError, ConnectRaises OSError] =
     (Raises CancelledError, new_bot\<lparr>retries := 10\<rparr>,
      [Connect, LogFailed 1 OSError, Sleep 2,
       Connect, LogFailed 2 OSError, Sleep 4,
       Connect, LogFailed 3 OSError, Sleep 8,
       Connect, LogFailed 4 OSError, Sleep 16,
       Connect, LogFailed 5 OSError, Sleep 32,
       Connect, LogFailed 6 OSError, Sleep 64,
       Connect, LogFailed 7 OSError, Sleep 128,
       Connect, LogFailed 8 OSError, Sleep 256,
       Connect, LogFailed 9 OSError, Sleep 300,
       Connect, LogFailed 10 OSError, Sleep 300,
       LogMaxRetries, LogShutdown, Cancel 0, Cancel 5, AwaitTasks])"
  by (simp add: websocket_listener_def new_bot_def on_exception_def backoff_def
      shutdown_def gather_all_def cancels_caller_def start_task_def listener_task_def)

lemma listener_cancels_start:
  assumes "fst (retry_loop b cs) = Exhausted"
  shows "tid start_task \<in> set (cancelled (snd (snd (websocket_listener b others stop shut cs))))"
proof -
  obtain b' tr where run: "retry_loop b cs = (Exhausted, b', tr)"
    using assms by (cases "retry_loop b cs") auto
  obtain r tr' where sh: "shutdown (tid listener_task) (start_task # listener_task # others) stop shut = (r, tr')"
    by (cases "shutdown (tid listener_task) (start_task # listener_task # others) stop shut") auto
  have "cancelled tr' = map tid (filter (\<lambda>t. tid t \<noteq> tid listener_task) (start_task # listener_task # others))"
    using cancelled_shutdown [of "tid listener_task" "start_task # listener_task # others" stop shut] sh
    by simp
  then have in': "tid start_task \<in> set (cancelled tr')"
    by (simp add: start_task_def listener_task_def)
  have "snd (snd (websocket_listener b others stop shut cs)) = tr @ LogMaxRetries # tr'"
    by (cases r) (simp_all add: websocket_listener_def run sh)
  then show ?thesis
    using in' by (simp add: cancelled_append)
qed

lemma start_at_halt:
  assumes "fst (retry_loop b cs) = Exhausted"
  shows "fst (start b None others stop shut cs) = RunRaises CancelledError"
  using listener_cancels_start [OF assms, of others stop shut]
  by (cases "websocket_listener b others stop shut cs") (simp add: start_def)

section \<open>Properties of start-up and exit\<close>

lemma check_required_REQUIRED:
  "check_required env REQUIRED_ENV =
     (if falsy (env ''TELEGRAM_TOKEN'')
      then Some (ValueError ''Missing required environment variable: TELEGRAM_TOKEN'')
      else if falsy (env ''CHAT_ID'')
      then Some (ValueError ''Missing required environment variable: CHAT_ID'')
      else None)"
  by (simp add: REQUIRED_ENV_def getenv_def)

lemma load_module_Inr:
  "load_module env = Inr cfg \<Longrightarrow>
     \<not> falsy (env ''TELEGRAM_TOKEN'') \<and> \<not> falsy (env ''CHAT_ID'')
   \<and> cfg = \<lparr>TELEGRAM_TOKEN = env ''TELEGRAM_TOKEN'', CHAT_ID = env ''CHAT_ID'',
            BOT_NAME = (case env ''BOT_NAME'' of None \<Rightarrow> ''GitHub Codespaces Bot'' | Some n \<Rightarrow> n),
            ALERT_THRESHOLDS = [(''5m'', 5), (''15m'', 10), (''1h'', 50)]\<rparr>"
  by (auto simp: load_module_def check_required_REQUIRED getenv_def getenv_default_def
      split: if_splits)

lemma load_module_ok:
  "\<not> falsy (env ''TELEGRAM_TOKEN'') \<Longrightarrow> \<not> falsy (env ''CHAT_ID'') \<Longrightarrow>
   load_module env =
     Inr \<lparr>TELEGRAM_TOKEN = env ''TELEGRAM_TOKEN'', CHAT_ID = env ''CHAT_ID'',
          BOT_NAME = (case env ''BOT_NAME'' of None \<Rightarrow> ''GitHub Codespaces Bot'' | Some n \<Rightarrow> n),
          ALERT_THRESHOLDS = [(''5m'', 5), (''15m'', 10), (''1h'', 50)]\<rparr>"
  by (simp add: load_module_def check_required_REQUIRED getenv_def getenv_default_def)

lemma load_module_missing_token:
  "falsy (env ''TELEGRAM_TOKEN'') \<Longrightarrow>
   load_module env = Inl (ValueError ''Missing required environment variable: TELEGRAM_TOKEN'')"
  by (simp add: load_module_def check_required_REQUIRED)

lemma load_module_missing_chat:
  "\<not> falsy (env ''TELEGRAM_TOKEN'') \<Longrightarrow> falsy (env ''CHAT_ID'') \<Longrightarrow>
   load_module env = Inl (ValueError ''Missing required environment variable: CHAT_ID'')"
  by (simp add: load_module_def check_required_REQUIRED)

lemma construct_after_load:
  "load_module env = Inr cfg \<Longrightarrow>
   construct cfg exchange build =
     (case exchange of Some e \<Rightarrow> Inl e
      | None \<Rightarrow> (case build of Some e \<Rightarrow> Inl e | None \<Rightarrow> Inr new_bot))"
  by (drule load_module_Inr) (simp add: construct_def init_telegram_def split: option.splits)

lemma construct_bot: "construct cfg exchange build = Inr b \<Longrightarrow> b = new_bot"
  by (auto simp: construct_def split: option.splits)

lemma process_at_halt:
  assumes "\<not> falsy (env ''TELEGRAM_TOKEN'')" and "\<not> falsy (env ''CHAT_ID'')"
    and "fst (retry_loop new_bot cs) = Exhausted"
  shows "process env None None None others stop shut cs = Some (1, [Traceback CancelledError])"
proof -
  let ?cfg = "\<lparr>TELEGRAM_TOKEN = env ''TELEGRAM_TOKEN'', CHAT_ID = env ''CHAT_ID'',
          BOT_NAME = (case env ''BOT_NAME'' of None \<Rightarrow> ''GitHub Codespaces Bot'' | Some n \<Rightarrow> n),
          ALERT_THRESHOLDS = [(''5m'', 5), (''15m'', 10), (''1h'', 50)]\<rparr>"
  have l: "load_module env = Inr ?cfg"
    using assms(1,2) by (rule load_module_ok)
  have c: "construct ?cfg None None = Inr new_bot"
    using construct_after_load [OF l, of None None] by simp
  show ?thesis
    by (simp add: process_def program_def l c start_at_halt [OF assms(3)] guarded_def)
qed

text \<open>
  C7, as the spec states it, fails. With both required variables set, an exception raised
  while the Telegram application is built is caught by the main block and logged as a
  fatal initialization error, and the script then ends with status 0.
\<close>

theorem exit_status_counterexample:
  "program [''TELEGRAM_TOKEN'' \<mapsto> ''123:abc'', ''CHAT_ID'' \<mapsto> ''42''] None (Some RuntimeError) None =
     (0, [LogCritical RuntimeError])"
  by (simp add: program_def load_module_ok falsy_def construct_def init_telegram_def guarded_def)

text \<open>
  C7, amended. The exit status is 1 when a required variable is unset or empty: the
  \<^verbatim>\<open>ValueError\<close> raised at import is outside every \<^verbatim>\<open>try\<close>. Otherwise it is 0 when
  nothing is raised, and also 0 when the first exception raised by the constructor or by
  the run is an \<^verbatim>\<open>Exception\<close>, which the main block catches and logs; it is 1 when
  that exception is not an \<^verbatim>\<open>Exception\<close>. A retry-exhaustion halt is such a case: the
  shutdown the listener runs cancels the task of \<^verbatim>\<open>start\<close>, which ends with
  \<^verbatim>\<open>CancelledError\<close>; nothing catches it and the process exits with status 1.
\<close>

theorem exit_status:
  "fst (program env exchange build run) =
     (if falsy (env ''TELEGRAM_TOKEN'') \<or> falsy (env ''CHAT_ID'') then 1
      else case exchange of
             Some e \<Rightarrow> if is_Exception e then 0 else 1
           | None \<Rightarrow>
               (case build of
                  Some e \<Rightarrow> if is_Exception e then 0 else 1
                | None \<Rightarrow>
                    (case run of
                       Some e \<Rightarrow> if is_Exception e then 0 else 1
                     | None \<Rightarrow> 0)))
   \<and> (\<not> falsy (env ''TELEGRAM_TOKEN'') \<and> \<not> falsy (env ''CHAT_ID'')
        \<and> fst (retry_loop new_bot cs) = Exhausted \<longrightarrow>
        process env None None None others stop shut cs = Some (1, [Traceback CancelledError]))"
proof -
  have 1: "fst (program env exchange build run) =
     (if falsy (env ''TELEGRAM_TOKEN'') \<or> falsy (env ''CHAT_ID'') then 1
      else case exchange of
             Some e \<Rightarrow> if is_Exception e then 0 else 1
           | None \<Rightarrow>
               (case build of
                  Some e \<Rightarrow> if is_Exception e then 0 else 1
                | None \<Rightarrow>
                    (case run of
                       Some e \<Rightarrow> if is_Exception e then 0 else 1
                     | None \<Rightarrow> 0)))"
  proof (cases "load_module env")
    case (Inl e)
    then have "falsy (env ''TELEGRAM_TOKEN'') \<or> falsy (env ''CHAT_ID'')"
      using load_module_ok [of env] by auto
    then show ?thesis using Inl by (simp add: program_def)
  next
    case (Inr cfg)
    from load_module_Inr [OF Inr] have ok: "\<not> falsy (env ''TELEGRAM_TOKEN'')" "\<not> falsy (env ''CHAT_ID'')"
      by auto
    show ?thesis
      using ok by (simp add: program_def Inr construct_after_load [OF Inr] guarded_def split: option.splits)
  qed
  have 2: "\<not> falsy (env ''TELEGRAM_TOKEN'') \<and> \<not> falsy (env ''CHAT_ID'')
        \<and> fst (retry_loop new_bot cs) = Exhausted \<longrightarrow>
        process env None None None others stop shut cs = Some (1, [Traceback CancelledError])"
    using process_at_halt by blast
  show ?thesis using 1 2 by blast
qed

text \<open>
  C7, amended, at a clean run, a run that raises \<^verbatim>\<open>RuntimeError\<close>, an environment
  without a chat identifier, and a halt after ten failed connects.
\<close>

theorem exit_status_witness:
  "fst (program [''TELEGRAM_TOKEN'' \<mapsto> ''123:abc'', ''CHAT_ID'' \<mapsto> ''42''] None None None) = 0
   \<and> fst (program [''TELEGRAM_TOKEN'' \<mapsto> ''123:abc'', ''CHAT_ID'' \<mapsto> ''42''] None None (Some RuntimeError)) = 0
   \<and> fst (program [''TELEGRAM_TOKEN'' \<mapsto> ''123:abc''] None None None) = 1
   \<and> \<not> falsy ([''TELEGRAM_TOKEN'' \<mapsto> ''123:abc'', ''CHAT_ID'' \<mapsto> ''42''] ''TELEGRAM_TOKEN'')
   \<and> \<not> falsy ([''TELEGRAM_TOKEN'' \<mapsto> ''123:abc'', ''CHAT_ID'' \<mapsto> ''42''] ''CHAT_ID'')
   \<and> fst (retry_loop new_bot
        [ConnectRaises OSError, ConnectRaises OSError, ConnectRaises OSError, ConnectRaises OSError,
         ConnectRaises OSError, ConnectRaises OSError, ConnectRaises OSError, ConnectRaises OSError,
         ConnectRaises OSError, ConnectRaises OSError]) = Exhausted
   \<and> process [''TELEGRAM_TOKEN'' \<mapsto> ''123:abc'', ''CHAT_ID'' \<mapsto> ''42''] None None None
        [\<lparr>tid = 5, on_cancel = EndsCancelled, awaits = []\<rparr>] None None
        [ConnectRaises OSError, ConnectRaises OSError, ConnectRaises OSError, ConnectRaises OSError,
         ConnectRaises OSError, ConnectRaises OSError, ConnectRaises OSError, ConnectRaises OSError,
         ConnectRaises OSError, ConnectRaises OSError] = Some (1, [Traceback CancelledError])"
  using exit_status [where env = "[''TELEGRAM_TOKEN'' \<mapsto> ''123:abc'', ''CHAT_ID'' \<mapsto> ''42'']"
        and exchange = None and build = None and run = None
        and others = "[\<lparr>tid = 5, on_cancel = EndsCancelled, awaits = []\<rparr>]" and stop = None and shut = None
        and cs = "[ConnectRaises OSError, ConnectRaises OSError, ConnectRaises OSError, ConnectRaises OSError,
         ConnectRaises OSError, ConnectRaises OSError, ConnectRaises OSError, ConnectRaises OSError,
         ConnectRaises OSError, ConnectRaises OSError]"]
    exit_status [where env = "[''TELEGRAM_TOKEN'' \<mapsto> ''123:abc'', ''CHAT_ID'' \<mapsto> ''42'']"
        and exchange = None and build = None and run = "Some RuntimeError" and cs = "[]"]
    exit_status [where env = "[''TELEGRAM_TOKEN'' \<mapsto> ''123:abc'']"
        and exchange = None and build = None and run = None and cs = "[]"]
  by (simp add: falsy_def new_bot_def on_exception_def backoff_def)

text \<open>
  C9, as the spec states it, fails. An environment that sets a maximal retry count, a
  backoff base and cap and a threshold changes nothing: the thresholds are the constants
  of the file, the bot retries at most 10 times and the wait is still
  \<open>min (2 ^ retries) 300\<close>.
\<close>

theorem config_counterexample:
  "load_module [''TELEGRAM_TOKEN'' \<mapsto> ''123:abc'', ''CHAT_ID'' \<mapsto> ''42'', ''MAX_RETRIES'' \<mapsto> ''3'',
                ''BACKOFF_BASE'' \<mapsto> ''3'', ''BACKOFF_CAP'' \<mapsto> ''60'', ''ALERT_THRESHOLD_5M'' \<mapsto> ''1.0''] =
     Inr \<lparr>TELEGRAM_TOKEN = Some ''123:abc'', CHAT_ID = Some ''42'', BOT_NAME = ''GitHub Codespaces Bot'',
          ALERT_THRESHOLDS = [(''5m'', 5), (''15m'', 10), (''1h'', 50)]\<rparr>
   \<and> construct \<lparr>TELEGRAM_TOKEN = Some ''123:abc'', CHAT_ID = Some ''42'',
                 BOT_NAME = ''GitHub Codespaces Bot'',
                 ALERT_THRESHOLDS = [(''5m'', 5), (''15m'', 10), (''1h'', 50)]\<rparr> None None = Inr new_bot
   \<and> max_retries new_bot = 10 \<and> backoff 1 = 2 \<and> backoff 9 = 300"
  by (simp add: load_module_ok falsy_def construct_def init_telegram_def new_bot_def backoff_def)

text \<open>
  C9, amended. The two required values come from the environment and the first one that
  is unset or empty stops the program at import with a \<^verbatim>\<open>ValueError\<close> that names it:
  nothing else runs. Of the optional values only the display name comes from the
  environment, with a default. The thresholds, the maximal retry count (10) and the base
  and cap of the wait (2 and 300) are constants of the file, whatever the environment.
\<close>

theorem config_from_environment:
  "(falsy (env ''TELEGRAM_TOKEN'') \<longrightarrow>
      load_module env = Inl (ValueError ''Missing required environment variable: TELEGRAM_TOKEN'')
    \<and> program env exchange build run =
        (1, [Traceback (ValueError ''Missing required environment variable: TELEGRAM_TOKEN'')]))
 \<and> (\<not> falsy (env ''TELEGRAM_TOKEN'') \<and> falsy (env ''CHAT_ID'') \<longrightarrow>
      load_module env = Inl (ValueError ''Missing required environment variable: CHAT_ID'')
    \<and> program env exchange build run =
        (1, [Traceback (ValueError ''Missing required environment variable: CHAT_ID'')]))
 \<and> (\<not> falsy (env ''TELEGRAM_TOKEN'') \<and> \<not> falsy (env ''CHAT_ID'') \<longrightarrow>
      load_module env =
        Inr \<lparr>TELEGRAM_TOKEN = env ''TELEGRAM_TOKEN'', CHAT_ID = env ''CHAT_ID'',
             BOT_NAME = (case env ''BOT_NAME'' of None \<Rightarrow> ''GitHub Codespaces Bot'' | Some n \<Rightarrow> n),
             ALERT_THRESHOLDS = [(''5m'', 5), (''15m'', 10), (''1h'', 50)]\<rparr>)
 \<and> (\<forall>cfg b. load_module env = Inr cfg \<and> construct cfg exchange build = Inr b \<longrightarrow>
      retries b = 0 \<and> max_retries b = 10)
 \<and> backoff r = min (2 ^ r) 300"
proof -
  have 1: "falsy (env ''TELEGRAM_TOKEN'') \<longrightarrow>
      load_module env = Inl (ValueError ''Missing required environment variable: TELEGRAM_TOKEN'')
    \<and> program env exchange build run =
        (1, [Traceback (ValueError ''Missing required environment variable: TELEGRAM_TOKEN'')])"
    by (simp add: program_def load_module_missing_token)
  have 2: "\<not> falsy (env ''TELEGRAM_TOKEN'') \<and> falsy (env ''CHAT_ID'') \<longrightarrow>
      load_module env = Inl (ValueError ''Missing required environment variable: CHAT_ID'')
    \<and> program env exchange build run =
        (1, [Traceback (ValueError ''Missing required environment variable: CHAT_ID'')])"
    by (simp add: program_def load_module_missing_chat)
  have 3: "\<not> falsy (env ''TELEGRAM_TOKEN'') \<and> \<not> falsy (env ''CHAT_ID'') \<longrightarrow>
      load_module env =
        Inr \<lparr>TELEGRAM_TOKEN = env ''TELEGRAM_TOKEN'', CHAT_ID = env ''CHAT_ID'',
             BOT_NAME = (case env ''BOT_NAME'' of None \<Rightarrow> ''GitHub Codespaces Bot'' | Some n \<Rightarrow> n),
             ALERT_THRESHOLDS = [(''5m'', 5), (''15m'', 10), (''1h'', 50)]\<rparr>"
    using load_module_ok [of env] by blast
  have 4: "\<forall>cfg b. load_module env = Inr cfg \<and> construct cfg exchange build = Inr b \<longrightarrow>
      retries b = 0 \<and> max_retries b = 10"
    by (auto dest!: construct_bot simp: new_bot_def)
  have 5: "backoff r = min (2 ^ r) 300"
    by (simp add: backoff_def)
  show ?thesis using 1 2 3 4 5 by blast
qed

text \<open>
  C9, amended, at an environment without a bot token.
\<close>

theorem config_from_environment_witness:
  "falsy ([''CHAT_ID'' \<mapsto> ''42''] ''TELEGRAM_TOKEN'')
   \<and> load_module [''CHAT_ID'' \<mapsto> ''42''] =
       Inl (ValueError ''Missing required environment variable: TELEGRAM_TOKEN'')
   \<and> program [''CHAT_ID'' \<mapsto> ''42''] None None None =
       (1, [Traceback (ValueError ''Missing required environment variable: TELEGRAM_TOKEN'')])"
  using config_from_environment [of "[''CHAT_ID'' \<mapsto> ''42'']" None None None 0]
  by (simp add: falsy_def)

end
